theory Spec2Isabelle
  imports Complex_Main "HOL-Library.Multiset"
begin

section \<open>Analysis helpers of candidDAC (plotting\_helpers.py)\<close>

text \<open>
  The helpers work on numpy arrays of float64 numbers and on Python strings. A finite
  float64 is modelled by the real number it denotes, an array by a list, a Python
  exception by a value of \<open>py_error\<close> in a sum type. Where the rounding of an
  operation decides what a helper returns (the two subtractions of \<^verbatim>\<open>find_nearest\<close>,
  the additions and the division of a float64 mean) the operation is rounded to float64
  by \<open>fl64\<close>; the arithmetic of the rewards is kept exact.
\<close>

datatype py_error = IndexError | TypeError | ZeroDivisionError | AttributeError

subsection \<open>Rounding to float64\<close>

text \<open>
  IEEE 754 binary64 rounds the exact result of an operation to the nearest number with a
  significand of 53 bits, ties to the even significand. \<open>fl64\<close> does so with an
  unbounded exponent: it agrees with binary64 on every result of magnitude between
  \<open>2^-1022\<close> and the largest double. For the difference of two doubles this is no
  loss: a difference below \<open>2^-1022\<close> is exact in binary64 and in \<open>fl64\<close>, and a
  difference that overflows to infinity is, in both, larger than every difference that
  does not.
\<close>

definition round_half_even :: "real \<Rightarrow> int" where
  "round_half_even x =
     (let f = \<lfloor>x\<rfloor>
      in if x - real_of_int f < 1 / 2 then f
         else if 1 / 2 < x - real_of_int f then f + 1
         else if even f then f else f + 1)"

definition fl64 :: "real \<Rightarrow> real" where
  "fl64 x =
     (if x = 0 then 0
      else (let ulp = 2 powr real_of_int (\<lfloor>log 2 \<bar>x\<bar>\<rfloor> - 52)
            in real_of_int (round_half_even (x / ulp)) * ulp))"

subsection \<open>Nearest-value lookup\<close>

text \<open>
  \<^verbatim>\<open>np.searchsorted(array, value)\<close> (side = left) is numpy's binary search: it keeps a
  window \<open>[lo, hi)\<close>, compares the middle element with the key and returns \<open>lo\<close>
  once the window is empty.
\<close>

function bsearch :: "real list \<Rightarrow> real \<Rightarrow> nat \<Rightarrow> nat \<Rightarrow> nat" where
  "bsearch xs v lo hi =
     (if lo < hi
      then (let mid = lo + (hi - lo) div 2
            in if xs ! mid < v then bsearch xs v (mid + 1) hi else bsearch xs v lo mid)
      else lo)"
  by pat_completeness auto
termination
  by (relation "measure (\<lambda>(xs, v, lo, hi). hi - lo)") auto

declare bsearch.simps [simp del]

definition searchsorted :: "real list \<Rightarrow> real \<Rightarrow> nat" where
  "searchsorted xs v = bsearch xs v 0 (length xs)"

text \<open>
  \<^verbatim>\<open>find_nearest(array, value)\<close> on a float64 array, as are all the grids the
  repository builds. On an empty array \<open>idx = 0\<close> and \<open>array[0]\<close> raises IndexError.
  The two distances are float64 subtractions.
\<close>

definition find_nearest :: "real list \<Rightarrow> real \<Rightarrow> py_error + real" where
  "find_nearest array v =
     (let idx = searchsorted array v
      in if idx = 0 then (case array of [] \<Rightarrow> Inl IndexError | a # _ \<Rightarrow> Inr a)
         else if idx = length array then Inr (last array)
         else (let dist_low = fl64 (v - array ! (idx - 1));
                   dist_high = fl64 (array ! idx - v)
               in Inr (if dist_low < dist_high then array ! (idx - 1) else array ! idx)))"

subsection \<open>Run-name canonicalization\<close>

text \<open>Python's \<^verbatim>\<open>sub in s\<close> on strings: \<open>sub\<close> occurs in \<open>s\<close> as a contiguous block.\<close>

fun starts_with :: "string \<Rightarrow> string \<Rightarrow> bool" where
  "starts_with [] s = True"
| "starts_with (p # ps) [] = False"
| "starts_with (p # ps) (c # cs) = (p = c \<and> starts_with ps cs)"

fun str_contains :: "string \<Rightarrow> string \<Rightarrow> bool" where
  "str_contains sub [] = starts_with sub []"
| "str_contains sub (c # cs) = (starts_with sub (c # cs) \<or> str_contains sub cs)"

definition translate_run_name :: "string \<Rightarrow> string" where
  "translate_run_name run_name =
     (if str_contains ''adqn'' run_name \<or> str_contains ''ddqn'' run_name then ''DDQN''
      else if str_contains ''fdqn_a'' run_name \<or> str_contains ''saql'' run_name then ''SAQL''
      else if str_contains ''fdqn'' run_name \<or> str_contains ''iql'' run_name then ''IQL''
      else if str_contains ''sdqn'' run_name then ''simSDQN''
      else run_name)"

subsection \<open>Optimal episode reward\<close>

text \<open>
  The environment classes come from dacbench, which is not part of the repository. An
  environment is modelled by what \<^verbatim>\<open>compute_optimal_episode_reward\<close> reads from it:
  its class (for the \<^verbatim>\<open>isinstance\<close> dispatch), \<open>n_steps\<close>, \<open>n_actions\<close>, the
  arrays \<open>slopes\<close> and \<open>shifts\<close>, and the two methods \<^verbatim>\<open>_sig\<close> and \<^verbatim>\<open>_get_target\<close>,
  taken as parameters.
\<close>

datatype env_class = DiffImportanceFineTuneSigmoidEnv | PiecewiseLinearEnv | SigmoidEnv

record env =
  env_class :: env_class
  n_steps :: nat
  n_actions :: nat
  slopes :: "real list"
  shifts :: "real list"
  sig :: "nat \<Rightarrow> real \<Rightarrow> real \<Rightarrow> real"
  get_target :: "nat \<Rightarrow> real"

text \<open>\<^verbatim>\<open>xs[i]\<close> raises IndexError out of range.\<close>

definition py_nth :: "'a list \<Rightarrow> nat \<Rightarrow> py_error + 'a" where
  "py_nth xs i = (if i < length xs then Inr (xs ! i) else Inl IndexError)"

text \<open>
  The reward of one step in the first branch (lines 75--78). \<open>reward_shape\<close> and \<open>c\<close>
  default to \<^verbatim>\<open>None\<close>; \<^verbatim>\<open>-c\<close> on \<^verbatim>\<open>None\<close> raises TypeError.
\<close>

definition reward_importance :: "string option \<Rightarrow> real option \<Rightarrow> real \<Rightarrow> real \<Rightarrow> py_error + real" where
  "reward_importance reward_shape c truth best_pred_acc =
     (if reward_shape = Some ''exponential''
      then (case c of None \<Rightarrow> Inl TypeError
            | Some k \<Rightarrow> Inr (exp (- k * \<bar>truth - best_pred_acc\<bar>)))
      else Inr (1 - \<bar>truth - best_pred_acc\<bar>))"

text \<open>The reward of one step in the second branch (lines 87--90).\<close>

definition reward_piecewise :: "string option \<Rightarrow> real option \<Rightarrow> real \<Rightarrow> real \<Rightarrow> py_error + real" where
  "reward_piecewise reward_shape c truth best_pred_acc =
     (if reward_shape = Some ''exponential'' \<or> reward_shape = Some ''exp''
      then (case c of None \<Rightarrow> Inl TypeError
            | Some k \<Rightarrow> Inr (exp (- k * \<bar>truth - best_pred_acc\<bar>)))
      else Inr (1 - \<bar>truth - best_pred_acc\<bar>))"

text \<open>
  \<^verbatim>\<open>for t in ...: acc += step(t)\<close> and \<^verbatim>\<open>for i in ...: acc *= factor(i)\<close>; an
  exception in the body leaves the loop.
\<close>

fun sum_loop :: "(nat \<Rightarrow> py_error + real) \<Rightarrow> nat list \<Rightarrow> real \<Rightarrow> py_error + real" where
  "sum_loop step [] acc = Inr acc"
| "sum_loop step (t # ts) acc =
     (case step t of Inl e \<Rightarrow> Inl e | Inr r \<Rightarrow> sum_loop step ts (acc + r))"

fun prod_loop :: "(nat \<Rightarrow> py_error + real) \<Rightarrow> nat list \<Rightarrow> real \<Rightarrow> py_error + real" where
  "prod_loop factor [] acc = Inr acc"
| "prod_loop factor (i # is) acc =
     (case factor i of Inl e \<Rightarrow> Inl e | Inr r \<Rightarrow> prod_loop factor is (acc * r))"

definition step_importance ::
  "env \<Rightarrow> real list \<Rightarrow> string option \<Rightarrow> real option \<Rightarrow> real \<Rightarrow> real \<Rightarrow> nat \<Rightarrow> py_error + real" where
  "step_importance e possible_actions reward_shape c slope shift t =
     (let truth = sig e t slope shift
      in case find_nearest possible_actions truth of
           Inl err \<Rightarrow> Inl err
         | Inr best_pred_acc \<Rightarrow> reward_importance reward_shape c truth best_pred_acc)"

definition step_piecewise ::
  "env \<Rightarrow> real list \<Rightarrow> string option \<Rightarrow> real option \<Rightarrow> nat \<Rightarrow> py_error + real" where
  "step_piecewise e possible_actions reward_shape c t =
     (let truth = get_target e t
      in case find_nearest possible_actions truth of
           Inl err \<Rightarrow> Inl err
         | Inr best_pred_acc \<Rightarrow> reward_piecewise reward_shape c truth best_pred_acc)"

definition factor_sigmoid :: "env \<Rightarrow> real list \<Rightarrow> nat \<Rightarrow> nat \<Rightarrow> py_error + real" where
  "factor_sigmoid e possible_actions t i =
     (case py_nth (slopes e) i of
        Inl err \<Rightarrow> Inl err
      | Inr slope \<Rightarrow>
          (case py_nth (shifts e) i of
             Inl err \<Rightarrow> Inl err
           | Inr shift \<Rightarrow>
               (let truth = sig e t slope shift
                in case find_nearest possible_actions truth of
                     Inl err \<Rightarrow> Inl err
                   | Inr best_pred_acc \<Rightarrow> Inr (1 - \<bar>truth - best_pred_acc\<bar>))))"

definition compute_optimal_episode_reward ::
  "env \<Rightarrow> real list \<Rightarrow> string option \<Rightarrow> real option \<Rightarrow> py_error + real" where
  "compute_optimal_episode_reward e possible_actions reward_shape c =
     (case env_class e of
        DiffImportanceFineTuneSigmoidEnv \<Rightarrow>
          (case py_nth (shifts e) 0 of
             Inl err \<Rightarrow> Inl err
           | Inr shift \<Rightarrow>
               (case py_nth (slopes e) 0 of
                  Inl err \<Rightarrow> Inl err
                | Inr slope \<Rightarrow>
                    sum_loop (step_importance e possible_actions reward_shape c slope shift)
                      [0..<n_steps e] 0))
      | PiecewiseLinearEnv \<Rightarrow>
          sum_loop (step_piecewise e possible_actions reward_shape c) [0..<n_steps e] 0
      | SigmoidEnv \<Rightarrow>
          sum_loop (\<lambda>t. prod_loop (factor_sigmoid e possible_actions t) [0..<n_actions e] 1)
            [0..<n_steps e] 0)"

subsection \<open>Action grids\<close>

definition py_div :: "real \<Rightarrow> real \<Rightarrow> py_error + real" where
  "py_div a b = (if b = 0 then Inl ZeroDivisionError else Inr (a / b))"

text \<open>A list comprehension whose element expression may raise: the first exception wins.\<close>

fun collect :: "(py_error + 'a) list \<Rightarrow> py_error + 'a list" where
  "collect [] = Inr []"
| "collect (Inl e # rs) = Inl e"
| "collect (Inr x # rs) = (case collect rs of Inl e \<Rightarrow> Inl e | Inr xs \<Rightarrow> Inr (x # xs))"

text \<open>\<^verbatim>\<open>range(n)\<close> and \<^verbatim>\<open>range(1, n)\<close> for a Python int \<open>n\<close> (empty when \<open>n\<close> is too small).\<close>

definition py_range :: "int \<Rightarrow> nat list" where
  "py_range n = [0..<nat n]"

definition py_range_from1 :: "int \<Rightarrow> nat list" where
  "py_range_from1 n = [1..<nat n]"

text \<open>\<^verbatim>\<open>[1 / (n_acts - 1) * i for i in range(n_acts)]\<close> (lines 177 and 223).\<close>

definition uniform_actions :: "int \<Rightarrow> py_error + real list" where
  "uniform_actions n_acts =
     collect (map (\<lambda>i. case py_div 1 (real_of_int (n_acts - 1)) of
                          Inl e \<Rightarrow> Inl e
                        | Inr q \<Rightarrow> Inr (q * real i))
                (py_range n_acts))"

text \<open>\<^verbatim>\<open>[importance_base**i * (j / (n_acts - 1) - 0.5) for j in range(n_acts)]\<close> (line 225).\<close>

definition centered_actions :: "real \<Rightarrow> int \<Rightarrow> nat \<Rightarrow> py_error + real list" where
  "centered_actions importance_base n_acts i =
     collect (map (\<lambda>j. case py_div (real j) (real_of_int (n_acts - 1)) of
                          Inl e \<Rightarrow> Inl e
                        | Inr q \<Rightarrow> Inr (importance_base ^ i * (q - 1 / 2)))
                (py_range n_acts))"

definition actions_per_dim :: "int \<Rightarrow> real \<Rightarrow> int \<Rightarrow> py_error + real list list" where
  "actions_per_dim max_dim importance_base n_acts =
     (case uniform_actions n_acts of
        Inl e \<Rightarrow> Inl e
      | Inr row0 \<Rightarrow>
          (case collect (map (centered_actions importance_base n_acts) (py_range_from1 max_dim)) of
             Inl e \<Rightarrow> Inl e
           | Inr rows \<Rightarrow> Inr (row0 # rows)))"

text \<open>
  \<^verbatim>\<open>sum(a[i, j] for i, j in enumerate(indices_tuple))\<close>: Python's \<open>sum\<close> adds from the
  left, starting at 0. The indices come from the ranges of the rows, so they are in range.
\<close>

definition sum_at :: "real list list \<Rightarrow> nat list \<Rightarrow> real" where
  "sum_at a indices_tuple = foldl (+) 0 (map (\<lambda>(i, j). a ! i ! j) (enumerate 0 indices_tuple))"

text \<open>\<^verbatim>\<open>np.unique\<close> sorts and then drops every element equal to its predecessor.\<close>

definition np_unique :: "real list \<Rightarrow> real list" where
  "np_unique xs = remdups_adj (sort xs)"

definition get_actions_importance_sigmoid :: "int \<Rightarrow> real \<Rightarrow> int \<Rightarrow> py_error + real list" where
  "get_actions_importance_sigmoid max_dim importance_base n_acts =
     (case actions_per_dim max_dim importance_base n_acts of
        Inl e \<Rightarrow> Inl e
      | Inr possible_actions_per_dim \<Rightarrow>
          (let indices = product_lists (map (\<lambda>vec. [0..<length vec]) possible_actions_per_dim);
               possible_actions_acc = map (sum_at possible_actions_per_dim) indices
           in Inr (sort (np_unique possible_actions_acc))))"

subsection \<open>Best possible average reward\<close>

text \<open>
  The loop over the instances (lines 190--194, 200--204, 211--214): one optimal episode
  reward per instance, in enumeration order.
\<close>

definition optim_reward_per_episode ::
  "env list \<Rightarrow> real list \<Rightarrow> string option \<Rightarrow> real option \<Rightarrow> py_error + real list" where
  "optim_reward_per_episode insts possible_actions_acc reward_shape c =
     collect (map (\<lambda>e. compute_optimal_episode_reward e possible_actions_acc reward_shape c) insts)"

text \<open>
  The benchmark objects that build the environment are dacbench's. \<open>insts\<close> is the
  sequence of states the environment takes in the loop over \<^verbatim>\<open>env.instance_id_list\<close>
  (one per \<^verbatim>\<open>env.reset()\<close>); \<open>dimn\<close> (the source's \<^verbatim>\<open>dim\<close>) only reaches the
  benchmark constructor. \<^verbatim>\<open>np.mean\<close> is numpy's and is the parameter \<open>np_mean\<close>; on
  an empty array numpy warns and returns nan, which is the result \<open>None\<close>. The default
  \<open>max_dim = None\<close> reaches \<^verbatim>\<open>range(1, None)\<close> in \<^verbatim>\<open>get_actions_importance_sigmoid\<close>,
  a TypeError, after the first row has been built.
\<close>

definition get_best_possible_avg_reward ::
  "(real list \<Rightarrow> real option) \<Rightarrow> env list \<Rightarrow> int \<Rightarrow> string \<Rightarrow> string option \<Rightarrow> real option
   \<Rightarrow> real \<Rightarrow> int \<Rightarrow> int option \<Rightarrow> py_error + real option" where
  "get_best_possible_avg_reward np_mean insts dimn benchmark reward_shape c importance_base n_acts
     max_dim =
     (case (if benchmark \<in> set [''candid_sigmoid'', ''piecewise_linear'']
            then (case max_dim of
                    None \<Rightarrow> (case uniform_actions n_acts of Inl e \<Rightarrow> Inl e | Inr _ \<Rightarrow> Inl TypeError)
                  | Some m \<Rightarrow> get_actions_importance_sigmoid m importance_base n_acts)
            else uniform_actions n_acts) of
        Inl e \<Rightarrow> Inl e
      | Inr possible_actions_acc \<Rightarrow>
          (case optim_reward_per_episode insts possible_actions_acc reward_shape c of
             Inl e \<Rightarrow> Inl e
           | Inr optim_reward_per_episode_acc \<Rightarrow> Inr (np_mean optim_reward_per_episode_acc)))"

text \<open>
  \<^verbatim>\<open>np.mean\<close> of a float64 array of fewer than 8 elements: numpy adds them to 0 from
  left to right, rounding every sum, and divides by the count. (Longer arrays are added
  in another order; this function is applied to short arrays only.)
\<close>

definition np_mean_short :: "real list \<Rightarrow> real option" where
  "np_mean_short xs =
     (if xs = [] then None
      else Some (fl64 (foldl (\<lambda>s x. fl64 (s + x)) 0 xs / real (length xs))))"

subsection \<open>Configuration-table filtering\<close>

text \<open>
  A data frame is the list of its rows; \<^verbatim>\<open>df[mask]\<close> keeps the rows where the mask
  holds. The column \<open>config_id\<close> holds strings (dtype object: identifiers such as
  \<open>best_ddqn\<close>) or integers (dtype int64, the type the signature names); the row type
  has the type of that column as its parameter and a table is of one of the two kinds.
  The argument \<open>config_id\<close> is a Python string or int. The default of \<open>n_act\<close> is the
  class \<^verbatim>\<open>float\<close>, which equals no cell: it is the selector \<open>None\<close>.
\<close>

record 'id config_row =
  row_config_id :: 'id
  row_dim :: int
  row_benchmark :: string
  row_reverse_agents :: bool
  row_n_act :: int
  row_importance_base :: real
  row_reward_shape :: string
  row_exp_reward :: real

datatype data_frame = StrFrame "string config_row list" | IntFrame "int config_row list"

datatype py_id = StrId string | IntId int

text \<open>The masks that do not look at \<open>config_id\<close> (lines 251--266).\<close>

definition select_rows ::
  "'id config_row list \<Rightarrow> int \<Rightarrow> string \<Rightarrow> bool \<Rightarrow> real \<Rightarrow> string \<Rightarrow> real \<Rightarrow> int option
   \<Rightarrow> 'id config_row list" where
  "select_rows df1 dimn benchmark reverse_agents importance_base reward_shape exp_reward n_act =
     (let df2 = filter (\<lambda>r. row_dim r = dimn \<and> row_benchmark r = benchmark
                             \<and> row_reverse_agents r = reverse_agents
                             \<and> Some (row_n_act r) = n_act) df1
      in if benchmark \<in> set [''candid_sigmoid'', ''piecewise_linear'']
         then (let df3 = filter (\<lambda>r. row_importance_base r = importance_base
                                      \<and> row_reward_shape r = reward_shape) df2
               in if reward_shape = ''exp''
                  then filter (\<lambda>r. row_exp_reward r = exp_reward) df3
                  else df3)
         else df2)"

text \<open>
  \<^verbatim>\<open>get_run_configs\<close>. The accessor \<^verbatim>\<open>.str\<close> of line 247 raises AttributeError on a
  column that is not of strings. The comparison \<^verbatim>\<open>==\<close> of line 249 never raises: a
  string never equals an int.
\<close>

definition get_run_configs ::
  "data_frame \<Rightarrow> int \<Rightarrow> string \<Rightarrow> py_id \<Rightarrow> bool \<Rightarrow> real \<Rightarrow> string \<Rightarrow> real \<Rightarrow> int option
   \<Rightarrow> py_error + data_frame" where
  "get_run_configs df_config dimn benchmark config_id reverse_agents importance_base reward_shape
     exp_reward n_act =
     (if config_id = StrId ''best''
      then (case df_config of
              StrFrame rows \<Rightarrow>
                Inr (StrFrame (select_rows
                       (filter (\<lambda>r. str_contains ''best'' (row_config_id r)) rows)
                       dimn benchmark reverse_agents importance_base reward_shape exp_reward n_act))
            | IntFrame rows \<Rightarrow> Inl AttributeError)
      else (case df_config of
              StrFrame rows \<Rightarrow>
                Inr (StrFrame (select_rows
                       (filter (\<lambda>r. StrId (row_config_id r) = config_id) rows)
                       dimn benchmark reverse_agents importance_base reward_shape exp_reward n_act))
            | IntFrame rows \<Rightarrow>
                Inr (IntFrame (select_rows
                       (filter (\<lambda>r. IntId (row_config_id r) = config_id) rows)
                       dimn benchmark reverse_agents importance_base reward_shape exp_reward n_act))))"

text \<open>
  The rows the specification selects for \<^verbatim>\<open>config_id = 'best'\<close>, written as one
  predicate on a row: the identifier contains \<open>best\<close>, the four general selectors
  match, the importance base and the reward shape match when the benchmark is
  importance-weighted, and the exponential constant matches when moreover the reward
  shape is \<open>exp\<close>.
\<close>

definition best_row_selected ::
  "int \<Rightarrow> string \<Rightarrow> bool \<Rightarrow> real \<Rightarrow> string \<Rightarrow> real \<Rightarrow> int option \<Rightarrow> string config_row
   \<Rightarrow> bool" where
  "best_row_selected dimn benchmark reverse_agents importance_base reward_shape exp_reward n_act r =
     (str_contains ''best'' (row_config_id r) \<and> row_dim r = dimn \<and> row_benchmark r = benchmark \<and>
      row_reverse_agents r = reverse_agents \<and> Some (row_n_act r) = n_act \<and>
      (if benchmark = ''candid_sigmoid'' \<or> benchmark = ''piecewise_linear''
       then row_importance_base r = importance_base \<and> row_reward_shape r = reward_shape \<and>
            (if reward_shape = ''exp'' then row_exp_reward r = exp_reward else True)
       else True))"

text \<open>Two small configuration tables for the concrete evaluations.\<close>

definition demo_rows :: "string config_row list" where
  "demo_rows =
     [\<lparr>row_config_id = ''best_ddqn'', row_dim = 2, row_benchmark = ''candid_sigmoid'',
       row_reverse_agents = False, row_n_act = 3, row_importance_base = 1 / 2,
       row_reward_shape = ''exp'', row_exp_reward = 46 / 10\<rparr>,
      \<lparr>row_config_id = ''17'', row_dim = 2, row_benchmark = ''candid_sigmoid'',
       row_reverse_agents = False, row_n_act = 3, row_importance_base = 1 / 2,
       row_reward_shape = ''exp'', row_exp_reward = 46 / 10\<rparr>,
      \<lparr>row_config_id = ''best_iql'', row_dim = 5, row_benchmark = ''candid_sigmoid'',
       row_reverse_agents = False, row_n_act = 3, row_importance_base = 1 / 2,
       row_reward_shape = ''exp'', row_exp_reward = 46 / 10\<rparr>]"

definition demo_int_rows :: "int config_row list" where
  "demo_int_rows =
     [\<lparr>row_config_id = 17, row_dim = 2, row_benchmark = ''candid_sigmoid'',
       row_reverse_agents = False, row_n_act = 3, row_importance_base = 1 / 2,
       row_reward_shape = ''exp'', row_exp_reward = 46 / 10\<rparr>,
      \<lparr>row_config_id = 18, row_dim = 2, row_benchmark = ''candid_sigmoid'',
       row_reverse_agents = False, row_n_act = 3, row_importance_base = 1 / 2,
       row_reward_shape = ''exp'', row_exp_reward = 46 / 10\<rparr>]"

text \<open>
  Concrete environments for the evaluations. \<open>dacbench_sig\<close> is the sigmoid of
  dacbench's \<^verbatim>\<open>_sig\<close>; with slope 0 the truth signal is constantly \<open>1 / 2\<close>. The
  piecewise target of a concrete environment is constant: \<open>1 / 2\<close> in \<open>demo_env\<close>, the
  argument in \<open>demo_piecewise\<close>.
\<close>

definition dacbench_sig :: "nat \<Rightarrow> real \<Rightarrow> real \<Rightarrow> real" where
  "dacbench_sig t slope shift = 1 / (1 + exp (- slope * (real t - shift)))"

definition demo_env :: "env_class \<Rightarrow> real list \<Rightarrow> real list \<Rightarrow> env" where
  "demo_env cls sl sh =
     \<lparr>env_class = cls, n_steps = 2, n_actions = length sl, slopes = sl, shifts = sh,
      sig = dacbench_sig, get_target = (\<lambda>t. 1 / 2)\<rparr>"





section \<open>Properties\<close>

subsection \<open>Rounding to float64\<close>

lemma round_half_even_of_int: "round_half_even (real_of_int n) = n"
  by (simp add: round_half_even_def)

lemma round_half_even_range:
  "\<lfloor>x\<rfloor> \<le> round_half_even x \<and> round_half_even x \<le> \<lfloor>x\<rfloor> + 1"
  by (simp add: round_half_even_def Let_def)

lemma round_half_even_mono: "x \<le> y \<Longrightarrow> round_half_even x \<le> round_half_even y"
proof -
  assume xy: "x \<le> y"
  have fl: "\<lfloor>x\<rfloor> \<le> \<lfloor>y\<rfloor>" using xy by (rule floor_mono)
  show ?thesis
  proof (cases "\<lfloor>x\<rfloor> = \<lfloor>y\<rfloor>")
    case True
    then show ?thesis using xy by (auto simp: round_half_even_def Let_def)
  next
    case False
    then have "\<lfloor>x\<rfloor> + 1 \<le> \<lfloor>y\<rfloor>" using fl by simp
    then show ?thesis
      using round_half_even_range [of x] round_half_even_range [of y] by linarith
  qed
qed

lemma round_half_even_minus: "round_half_even (- x) = - round_half_even x"
proof (cases "x = real_of_int \<lfloor>x\<rfloor>")
  case True
  then have "round_half_even (- x) = round_half_even (real_of_int (- \<lfloor>x\<rfloor>))" by simp
  also have "\<dots> = - \<lfloor>x\<rfloor>" by (rule round_half_even_of_int)
  also have "\<dots> = - round_half_even (real_of_int \<lfloor>x\<rfloor>)" by (simp only: round_half_even_of_int)
  finally show ?thesis using True by simp
next
  case False
  then have notint: "x \<notin> \<int>" by (metis Ints_cases of_int_floor_cancel)
  have fm: "\<lfloor>- x\<rfloor> = - \<lfloor>x\<rfloor> - 1"
    using notint False by (simp add: floor_minus ceiling_altdef)
  have lt: "real_of_int \<lfloor>x\<rfloor> < x" using False by (metis of_int_floor_le order_less_le)
  show ?thesis
    unfolding round_half_even_def Let_def fm using lt
    by (auto simp: algebra_simps)
qed


lemma log2_floor_bounds:
  assumes "0 < x"
  shows "2 powr real_of_int \<lfloor>log 2 x\<rfloor> \<le> x" and "x < 2 powr real_of_int (\<lfloor>log 2 x\<rfloor> + 1)"
  using floor_log_eq_powr_iff [of x 2 "\<lfloor>log 2 x\<rfloor>"] assms by simp_all

lemma log2_floor_eq:
  "0 < x \<Longrightarrow> 2 powr real_of_int k \<le> x \<Longrightarrow> x < 2 powr real_of_int (k + 1) \<Longrightarrow> \<lfloor>log 2 x\<rfloor> = k"
  using floor_log_eq_powr_iff [of x 2 k] by simp

lemma fl64_pos_eq:
  assumes "0 < x" "2 powr real_of_int k \<le> x" "x < 2 powr real_of_int (k + 1)"
  shows "fl64 x = real_of_int (round_half_even (x / 2 powr real_of_int (k - 52))) * 2 powr real_of_int (k - 52)"
  using assms log2_floor_eq [OF assms] by (simp add: fl64_def Let_def)

lemma fl64_minus: "fl64 (- x) = - fl64 x"
  by (simp add: fl64_def Let_def round_half_even_minus)

lemma fl64_zero: "fl64 0 = 0"
  by (simp add: fl64_def)

lemma fl64_pos_range:
  assumes "0 < x" "2 powr real_of_int k \<le> x" "x < 2 powr real_of_int (k + 1)"
  shows "2 powr real_of_int k \<le> fl64 x" and "fl64 x \<le> 2 powr real_of_int (k + 1)"
proof -
  let ?u = "2 powr real_of_int (k - 52) :: real"
  have u: "0 < ?u" by simp
  have lo: "2 powr real_of_int k = real_of_int (2 ^ 52) * ?u"
    by (simp add: powr_diff)
  have hi: "2 powr real_of_int (k + 1) = real_of_int (2 ^ 53) * ?u"
    by (simp add: powr_diff powr_add)
  have "real_of_int (2 ^ 52) \<le> x / ?u" using assms(2) u unfolding lo by (simp add: field_simps)
  then have "round_half_even (real_of_int (2 ^ 52)) \<le> round_half_even (x / ?u)"
    by (rule round_half_even_mono)
  then have a: "2 ^ 52 \<le> round_half_even (x / ?u)" by (simp only: round_half_even_of_int)
  have "x / ?u \<le> real_of_int (2 ^ 53)" using assms(3) u unfolding hi by (simp add: field_simps)
  then have "round_half_even (x / ?u) \<le> round_half_even (real_of_int (2 ^ 53))"
    by (rule round_half_even_mono)
  then have b: "round_half_even (x / ?u) \<le> 2 ^ 53" by (simp only: round_half_even_of_int)
  have f: "fl64 x = real_of_int (round_half_even (x / ?u)) * ?u" using assms by (rule fl64_pos_eq)
  have "real_of_int (2 ^ 52) * ?u \<le> real_of_int (round_half_even (x / ?u)) * ?u"
    using a u by (intro mult_right_mono) simp_all
  then show "2 powr real_of_int k \<le> fl64 x" unfolding f lo .
  have "real_of_int (round_half_even (x / ?u)) * ?u \<le> real_of_int (2 ^ 53) * ?u"
    using b u by (intro mult_right_mono) simp_all
  then show "fl64 x \<le> 2 powr real_of_int (k + 1)" unfolding f hi .
qed

lemma fl64_pos: "0 < x \<Longrightarrow> 0 < fl64 x"
proof -
  assume x: "0 < x"
  have "2 powr real_of_int \<lfloor>log 2 x\<rfloor> \<le> fl64 x"
    using x log2_floor_bounds [OF x] by (rule fl64_pos_range)
  moreover have "(0::real) < 2 powr real_of_int \<lfloor>log 2 x\<rfloor>" by simp
  ultimately show ?thesis by linarith
qed

lemma fl64_mono_pos:
  assumes "0 < x" "x \<le> y"
  shows "fl64 x \<le> fl64 y"
proof -
  have y: "0 < y" using assms by simp
  let ?k = "\<lfloor>log 2 x\<rfloor>" and ?l = "\<lfloor>log 2 y\<rfloor>"
  note bx = log2_floor_bounds [OF assms(1)] and bdy = log2_floor_bounds [OF y]
  have kl: "?k \<le> ?l" using assms by (intro floor_mono) simp
  show ?thesis
  proof (cases "?k = ?l")
    case True
    let ?u = "2 powr real_of_int (?k - 52) :: real"
    have "x / ?u \<le> y / ?u" using assms(2) by (simp add: divide_right_mono)
    then have "round_half_even (x / ?u) \<le> round_half_even (y / ?u)" by (rule round_half_even_mono)
    then have "real_of_int (round_half_even (x / ?u)) * ?u \<le> real_of_int (round_half_even (y / ?u)) * ?u"
      by (intro mult_right_mono) simp_all
    moreover have "fl64 x = real_of_int (round_half_even (x / ?u)) * ?u"
      using assms(1) bx by (rule fl64_pos_eq)
    moreover have "fl64 y = real_of_int (round_half_even (y / ?u)) * ?u"
      using y bdy unfolding True by (rule fl64_pos_eq)
    ultimately show ?thesis by simp
  next
    case False
    then have "?k + 1 \<le> ?l" using kl by simp
    then have "(2::real) powr real_of_int (?k + 1) \<le> 2 powr real_of_int ?l"
      by (intro powr_mono) simp_all
    moreover have "fl64 x \<le> 2 powr real_of_int (?k + 1)" using assms(1) bx by (rule fl64_pos_range)
    moreover have "2 powr real_of_int ?l \<le> fl64 y" using y bdy by (rule fl64_pos_range)
    ultimately show ?thesis by linarith
  qed
qed

lemma fl64_mono: "x \<le> y \<Longrightarrow> fl64 x \<le> fl64 y"
proof -
  assume xy: "x \<le> y"
  consider "0 < x" | "x = 0" "y = 0" | "x = 0" "0 < y" | "x < 0" "y < 0" | "x < 0" "y = 0" | "x < 0" "0 < y"
    using xy by linarith
  then show ?thesis
  proof cases
    case 1
    then show ?thesis using xy by (rule fl64_mono_pos)
  next
    case 2
    then show ?thesis by simp
  next
    case 3
    then show ?thesis using fl64_pos [of y] by (simp add: fl64_zero)
  next
    case 4
    then have "fl64 (- y) \<le> fl64 (- x)" using xy by (intro fl64_mono_pos) simp_all
    then show ?thesis by (simp add: fl64_minus)
  next
    case 5
    then show ?thesis using fl64_pos [of "- x"] by (simp add: fl64_minus fl64_zero)
  next
    case 6
    then show ?thesis using fl64_pos [of "- x"] fl64_pos [of y] by (simp add: fl64_minus)
  qed
qed

lemma fl64_abs: "fl64 \<bar>x\<bar> = \<bar>fl64 x\<bar>"
proof (cases "0 \<le> x")
  case True
  then have "0 \<le> fl64 x" using fl64_mono [of 0 x] by (simp add: fl64_zero)
  with True show ?thesis by simp
next
  case False
  then have "fl64 x \<le> 0" using fl64_mono [of x 0] by (simp add: fl64_zero)
  with False show ?thesis by (simp add: fl64_minus)
qed



subsection \<open>Binary search on a sorted array\<close>

lemma bsearch_stop: "\<not> lo < hi \<Longrightarrow> bsearch xs v lo hi = lo"
  by (simp add: bsearch.simps [of xs v lo hi])

lemma bsearch_right:
  "lo < hi \<Longrightarrow> xs ! (lo + (hi - lo) div 2) < v
   \<Longrightarrow> bsearch xs v lo hi = bsearch xs v (lo + (hi - lo) div 2 + 1) hi"
  by (simp add: bsearch.simps [of xs v lo hi])

lemma bsearch_left:
  "lo < hi \<Longrightarrow> \<not> xs ! (lo + (hi - lo) div 2) < v
   \<Longrightarrow> bsearch xs v lo hi = bsearch xs v lo (lo + (hi - lo) div 2)"
  by (simp add: bsearch.simps [of xs v lo hi])

lemma bsearch_bounds: "lo \<le> hi \<Longrightarrow> lo \<le> bsearch xs v lo hi \<and> bsearch xs v lo hi \<le> hi"
proof (induction xs v lo hi rule: bsearch.induct)
  case (1 xs v lo hi)
  show ?case
  proof (cases "lo < hi")
    case False
    then have "bsearch xs v lo hi = lo" by (rule bsearch_stop)
    then show ?thesis using "1.prems" False by simp
  next
    case True
    define mid where "mid = lo + (hi - lo) div 2"
    have m: "lo \<le> mid" "mid < hi" using True by (auto simp: mid_def)
    show ?thesis
    proof (cases "xs ! mid < v")
      case lt: True
      have "mid + 1 \<le> bsearch xs v (mid + 1) hi \<and> bsearch xs v (mid + 1) hi \<le> hi"
        using "1.IH"(1) [OF True mid_def lt] m by simp
      then show ?thesis using True lt m by (simp add: bsearch_right mid_def)
    next
      case ge: False
      have "lo \<le> bsearch xs v lo mid \<and> bsearch xs v lo mid \<le> mid"
        using "1.IH"(2) [OF True mid_def ge] m by simp
      then show ?thesis using True ge m by (simp add: bsearch_left mid_def)
    qed
  qed
qed

lemma bsearch_below:
  "sorted xs \<Longrightarrow> lo \<le> hi \<Longrightarrow> hi \<le> length xs \<Longrightarrow> (\<And>j. j < lo \<Longrightarrow> xs ! j < v)
   \<Longrightarrow> j < bsearch xs v lo hi \<Longrightarrow> xs ! j < v"
proof (induction xs v lo hi rule: bsearch.induct)
  case (1 xs v lo hi)
  show ?case
  proof (cases "lo < hi")
    case False
    then have "bsearch xs v lo hi = lo" by (rule bsearch_stop)
    then show ?thesis using "1.prems" False by simp
  next
    case True
    define mid where "mid = lo + (hi - lo) div 2"
    have m: "lo \<le> mid" "mid < hi" using True by (auto simp: mid_def)
    show ?thesis
    proof (cases "xs ! mid < v")
      case lt: True
      have r: "bsearch xs v lo hi = bsearch xs v (mid + 1) hi"
        using True lt by (simp add: bsearch_right mid_def)
      have below: "xs ! k < v" if "k < mid + 1" for k
      proof -
        have "k \<le> mid" using that by simp
        moreover have "mid < length xs" using m "1.prems"(3) by simp
        ultimately have "xs ! k \<le> xs ! mid" using "1.prems"(1) by (simp add: sorted_nth_mono)
        then show ?thesis using lt by simp
      qed
      show ?thesis
        using "1.IH"(1) [OF True mid_def lt "1.prems"(1) _ "1.prems"(3) below] m "1.prems"(5) r
        by simp
    next
      case ge: False
      have r: "bsearch xs v lo hi = bsearch xs v lo mid"
        using True ge by (simp add: bsearch_left mid_def)
      show ?thesis
        using "1.IH"(2) [OF True mid_def ge "1.prems"(1) _ _ "1.prems"(4)] m "1.prems"(3,5) r
        by simp
    qed
  qed
qed

lemma bsearch_above:
  "sorted xs \<Longrightarrow> lo \<le> hi \<Longrightarrow> hi \<le> length xs
   \<Longrightarrow> (\<And>j. hi \<le> j \<Longrightarrow> j < length xs \<Longrightarrow> v \<le> xs ! j)
   \<Longrightarrow> bsearch xs v lo hi \<le> j \<Longrightarrow> j < length xs \<Longrightarrow> v \<le> xs ! j"
proof (induction xs v lo hi rule: bsearch.induct)
  case (1 xs v lo hi)
  show ?case
  proof (cases "lo < hi")
    case False
    then have "bsearch xs v lo hi = lo" by (rule bsearch_stop)
    then show ?thesis using "1.prems" False by simp
  next
    case True
    define mid where "mid = lo + (hi - lo) div 2"
    have m: "lo \<le> mid" "mid < hi" using True by (auto simp: mid_def)
    show ?thesis
    proof (cases "xs ! mid < v")
      case lt: True
      have r: "bsearch xs v lo hi = bsearch xs v (mid + 1) hi"
        using True lt by (simp add: bsearch_right mid_def)
      show ?thesis
        using "1.IH"(1) [OF True mid_def lt "1.prems"(1) _ "1.prems"(3,4)] m "1.prems"(5,6) r
        by simp
    next
      case ge: False
      have r: "bsearch xs v lo hi = bsearch xs v lo mid"
        using True ge by (simp add: bsearch_left mid_def)
      have above: "v \<le> xs ! k" if "mid \<le> k" "k < length xs" for k
      proof -
        have "xs ! mid \<le> xs ! k" using that "1.prems"(1) by (simp add: sorted_nth_mono)
        then show ?thesis using ge by simp
      qed
      show ?thesis
        using "1.IH"(2) [OF True mid_def ge "1.prems"(1) _ _ above] m "1.prems"(3,5,6) r
        by simp
    qed
  qed
qed

subsection \<open>Nearest-value lookup on a sorted array\<close>

lemma searchsorted_le: "searchsorted xs v \<le> length xs"
  using bsearch_bounds [of 0 "length xs" xs v] by (simp add: searchsorted_def)

lemma searchsorted_below: "sorted xs \<Longrightarrow> j < searchsorted xs v \<Longrightarrow> xs ! j < v"
  unfolding searchsorted_def by (rule bsearch_below [of xs 0 "length xs"]) simp_all

lemma searchsorted_above:
  "sorted xs \<Longrightarrow> searchsorted xs v \<le> j \<Longrightarrow> j < length xs \<Longrightarrow> v \<le> xs ! j"
  unfolding searchsorted_def by (rule bsearch_above [of xs 0 "length xs"]) simp_all

lemma find_nearest_cases:
  assumes "A \<noteq> []"
  obtains (first) "searchsorted A v = 0" "find_nearest A v = Inr (A ! 0)"
  | (last) "searchsorted A v = length A" "find_nearest A v = Inr (A ! (length A - 1))"
  | (low) "0 < searchsorted A v" "searchsorted A v < length A"
      "fl64 (v - A ! (searchsorted A v - 1)) < fl64 (A ! searchsorted A v - v)"
      "find_nearest A v = Inr (A ! (searchsorted A v - 1))"
  | (high) "0 < searchsorted A v" "searchsorted A v < length A"
      "\<not> fl64 (v - A ! (searchsorted A v - 1)) < fl64 (A ! searchsorted A v - v)"
      "find_nearest A v = Inr (A ! searchsorted A v)"
proof -
  obtain a as where A: "A = a # as" using assms by (cases A) auto
  consider "searchsorted A v = 0" | "searchsorted A v = length A" "searchsorted A v \<noteq> 0"
    | "0 < searchsorted A v" "searchsorted A v < length A"
    using searchsorted_le [of A v] by linarith
  then show thesis
  proof cases
    case 1
    then have "find_nearest A v = Inr (A ! 0)" by (simp add: find_nearest_def A)
    with 1 show ?thesis by (rule first)
  next
    case 2
    then have "find_nearest A v = Inr (A ! (length A - 1))"
      using assms by (simp add: find_nearest_def last_conv_nth)
    with 2 show ?thesis by (intro last)
  next
    case 3
    show ?thesis
    proof (cases "fl64 (v - A ! (searchsorted A v - 1)) < fl64 (A ! searchsorted A v - v)")
      case True
      with 3 have "find_nearest A v = Inr (A ! (searchsorted A v - 1))"
        by (simp add: find_nearest_def Let_def)
      with 3 True show ?thesis by (intro low)
    next
      case False
      with 3 have "find_nearest A v = Inr (A ! searchsorted A v)"
        by (simp add: find_nearest_def Let_def)
      with 3 False show ?thesis by (intro high)
    qed
  qed
qed

text \<open>The computed distance of an element: the float64 value of \<open>|a - v|\<close>.\<close>

lemma fl64_dist_below: "a \<le> v \<Longrightarrow> fl64 \<bar>a - v\<bar> = fl64 (v - a)"
  by simp

lemma fl64_dist_above: "v \<le> a \<Longrightarrow> fl64 \<bar>a - v\<bar> = fl64 (a - v)"
  by simp

lemma find_nearest_index:
  assumes ne: "A \<noteq> []" and srt: "sorted A"
  shows "\<exists>k<length A. find_nearest A v = Inr (A ! k) \<and>
           (\<forall>j<length A. fl64 \<bar>A ! k - v\<bar> \<le> fl64 \<bar>A ! j - v\<bar>) \<and>
           (\<forall>j<length A. A ! k < v \<and> v \<le> A ! j \<longrightarrow> fl64 \<bar>A ! k - v\<bar> < fl64 \<bar>A ! j - v\<bar>)"
proof -
  let ?idx = "searchsorted A v"
  have len: "0 < length A" using ne by simp
  have below: "A ! j < v" if "j < ?idx" for j using srt that by (rule searchsorted_below)
  have above: "v \<le> A ! j" if "?idx \<le> j" "j < length A" for j
    using srt that by (rule searchsorted_above)
  have mono: "A ! i \<le> A ! j" if "i \<le> j" "j < length A" for i j
    using srt that by (rule sorted_nth_mono)
  have far_below: "fl64 (v - A ! i) \<le> fl64 \<bar>A ! j - v\<bar>" if "j \<le> i" "i < ?idx" "i < length A" for i j
  proof -
    have "A ! j \<le> A ! i" using that by (intro mono) simp_all
    moreover have "A ! i < v" using that by (intro below)
    ultimately have "v - A ! i \<le> \<bar>A ! j - v\<bar>" by simp
    then show ?thesis by (rule fl64_mono)
  qed
  have far_above: "fl64 (A ! i - v) \<le> fl64 \<bar>A ! j - v\<bar>" if "?idx \<le> i" "i \<le> j" "j < length A" for i j
  proof -
    have "A ! i \<le> A ! j" using that by (intro mono) simp_all
    moreover have "v \<le> A ! i" using that by (intro above) simp_all
    ultimately have "A ! i - v \<le> \<bar>A ! j - v\<bar>" by simp
    then show ?thesis by (rule fl64_mono)
  qed
  from ne show ?thesis
  proof (cases rule: find_nearest_cases [of A v])
    case first
    have k0: "v \<le> A ! 0" using first(1) len by (intro above) simp_all
    have "fl64 \<bar>A ! 0 - v\<bar> \<le> fl64 \<bar>A ! j - v\<bar>" if "j < length A" for j
      using far_above [of 0 j] that first(1) k0 by simp
    with first(2) len k0 show ?thesis by (intro exI [of _ 0]) auto
  next
    case last
    let ?k = "length A - 1"
    have k: "?k < length A" "?k < ?idx" using len last(1) by simp_all
    have kv: "A ! ?k < v" using k(2) by (rule below)
    have "fl64 \<bar>A ! ?k - v\<bar> \<le> fl64 \<bar>A ! j - v\<bar>" if "j < length A" for j
      using far_below [of j ?k] that k kv by simp
    moreover have "\<not> v \<le> A ! j" if "j < length A" for j
      using below [of j] that last(1) by simp
    ultimately show ?thesis using last(2) k(1) by (intro exI [of _ ?k]) auto
  next
    case low
    let ?k = "?idx - 1"
    have k: "?k < length A" "?k < ?idx" using low(1,2) by simp_all
    have kv: "A ! ?k < v" using k(2) by (rule below)
    have iv: "v \<le> A ! ?idx" using low(2) by (intro above) simp_all
    have dk: "fl64 \<bar>A ! ?k - v\<bar> = fl64 (v - A ! ?k)" using kv by simp
    have up: "fl64 \<bar>A ! ?k - v\<bar> < fl64 \<bar>A ! j - v\<bar>" if "?idx \<le> j" "j < length A" for j
      using far_above [of ?idx j] that low(3) dk by simp
    have "fl64 \<bar>A ! ?k - v\<bar> \<le> fl64 \<bar>A ! j - v\<bar>" if j: "j < length A" for j
    proof (cases "j < ?idx")
      case True
      then show ?thesis using far_below [of j ?k] k dk by simp
    next
      case False
      then show ?thesis using up [of j] j by simp
    qed
    moreover have "fl64 \<bar>A ! ?k - v\<bar> < fl64 \<bar>A ! j - v\<bar>" if "j < length A" "v \<le> A ! j" for j
    proof -
      have "\<not> j < ?idx" using below [of j] that(2) by auto
      then show ?thesis using up [of j] that(1) by simp
    qed
    ultimately show ?thesis using low(4) k(1) by (intro exI [of _ ?k]) auto
  next
    case high
    let ?k = "?idx - 1"
    have k: "?k < length A" "?k < ?idx" using high(1,2) by simp_all
    have kv: "A ! ?k < v" using k(2) by (rule below)
    have iv: "v \<le> A ! ?idx" using high(2) by (intro above) simp_all
    have di: "fl64 \<bar>A ! ?idx - v\<bar> = fl64 (A ! ?idx - v)" using iv by simp
    have le: "fl64 (A ! ?idx - v) \<le> fl64 (v - A ! ?k)" using high(3) by simp
    have "fl64 \<bar>A ! ?idx - v\<bar> \<le> fl64 \<bar>A ! j - v\<bar>" if j: "j < length A" for j
    proof (cases "j < ?idx")
      case True
      then have "fl64 (v - A ! ?k) \<le> fl64 \<bar>A ! j - v\<bar>" using far_below [of j ?k] k by simp
      then show ?thesis using le di by simp
    next
      case False
      then show ?thesis using far_above [of ?idx j] j di by simp
    qed
    then show ?thesis using high(4,2) iv by (intro exI [of _ ?idx]) auto
  qed
qed




text \<open>
  It fails by rounding as well: for the query \<open>-0.5\<close> in \<open>[-2^53, 2^53]\<close> both
  subtractions give \<open>2^53\<close>, so the upper element is returned although the lower one is
  strictly closer.
\<close>

lemma fl64_below_2_53: "fl64 (18014398509481983 / 2) = 9007199254740992"
  using fl64_pos_eq [of "18014398509481983 / 2" 52] by (simp add: round_half_even_def)

lemma fl64_above_2_53: "fl64 (18014398509481985 / 2) = 9007199254740992"
  using fl64_pos_eq [of "18014398509481985 / 2" 53] by (simp add: round_half_even_def)

lemma find_nearest_rounding_miss:
  "find_nearest [- (2 ^ 53), 2 ^ 53] (- (1 / 2)) = Inr (2 ^ 53) \<and>
   \<bar>- (2 ^ 53) - (- (1 / 2)) :: real\<bar> < \<bar>2 ^ 53 - (- (1 / 2))\<bar>"
  by (simp add: find_nearest_def searchsorted_def bsearch.simps fl64_below_2_53 fl64_above_2_53)

subsection \<open>Run-name canonicalization\<close>

lemma starts_with_append: "starts_with (p @ q) s \<Longrightarrow> starts_with p s"
  by (induction p s rule: starts_with.induct) auto

lemma str_contains_append: "str_contains (p @ q) s \<Longrightarrow> str_contains p s"
  by (induction s) (auto dest: starts_with_append)

lemma fdqn_a_contains_fdqn: "str_contains ''fdqn_a'' s \<Longrightarrow> str_contains ''fdqn'' s"
  using str_contains_append [of "''fdqn''" "''_a''" s] by simp

text \<open>
  Claim C3. The four example run names are mapped to DDQN, SAQL, IQL and simSDQN; a name
  \<open>s\<close> that contains none of the markers is returned unchanged; and a name \<open>t\<close> with
  one of the markers \<open>fdqn_a\<close>, \<open>saql\<close> (and neither \<open>adqn\<close> nor \<open>ddqn\<close>, which are
  tested first) becomes SAQL although every name containing \<open>fdqn_a\<close> also contains the
  plain marker \<open>fdqn\<close>: the more specific markers are tested before the plain ones.
\<close>

theorem translate_run_name_examples:
  "translate_run_name ''exp_ddqn_seed0'' = ''DDQN'' \<and>
   translate_run_name ''exp_fdqn_a_seed3'' = ''SAQL'' \<and>
   translate_run_name ''exp_fdqn_seed1'' = ''IQL'' \<and>
   translate_run_name ''exp_sdqn_seed2'' = ''simSDQN'' \<and>
   translate_run_name ''unrecognized_tag'' = ''unrecognized_tag'' \<and>
   (\<not> str_contains ''adqn'' s \<and> \<not> str_contains ''ddqn'' s \<and> \<not> str_contains ''fdqn_a'' s \<and>
    \<not> str_contains ''saql'' s \<and> \<not> str_contains ''fdqn'' s \<and> \<not> str_contains ''iql'' s \<and>
    \<not> str_contains ''sdqn'' s \<longrightarrow> translate_run_name s = s) \<and>
   (\<not> str_contains ''adqn'' t \<and> \<not> str_contains ''ddqn'' t \<and>
    (str_contains ''fdqn_a'' t \<or> str_contains ''saql'' t) \<longrightarrow> translate_run_name t = ''SAQL'') \<and>
   (str_contains ''fdqn_a'' t \<longrightarrow> str_contains ''fdqn'' t)"
proof (intro conjI)
  show "translate_run_name ''exp_ddqn_seed0'' = ''DDQN''"
    by (simp add: translate_run_name_def)
  show "translate_run_name ''exp_fdqn_a_seed3'' = ''SAQL''"
    by (simp add: translate_run_name_def)
  show "translate_run_name ''exp_fdqn_seed1'' = ''IQL''"
    by (simp add: translate_run_name_def)
  show "translate_run_name ''exp_sdqn_seed2'' = ''simSDQN''"
    by (simp add: translate_run_name_def)
  show "translate_run_name ''unrecognized_tag'' = ''unrecognized_tag''"
    by (simp add: translate_run_name_def)
  show "\<not> str_contains ''adqn'' s \<and> \<not> str_contains ''ddqn'' s \<and> \<not> str_contains ''fdqn_a'' s \<and>
    \<not> str_contains ''saql'' s \<and> \<not> str_contains ''fdqn'' s \<and> \<not> str_contains ''iql'' s \<and>
    \<not> str_contains ''sdqn'' s \<longrightarrow> translate_run_name s = s"
    by (simp add: translate_run_name_def)
  show "\<not> str_contains ''adqn'' t \<and> \<not> str_contains ''ddqn'' t \<and>
    (str_contains ''fdqn_a'' t \<or> str_contains ''saql'' t) \<longrightarrow> translate_run_name t = ''SAQL''"
    by (simp add: translate_run_name_def)
  show "str_contains ''fdqn_a'' t \<longrightarrow> str_contains ''fdqn'' t"
    by (simp add: fdqn_a_contains_fdqn)
qed

theorem translate_run_name_examples_witness:
  "(\<not> str_contains ''adqn'' ''my_run'' \<and> \<not> str_contains ''ddqn'' ''my_run'' \<and>
    \<not> str_contains ''fdqn_a'' ''my_run'' \<and> \<not> str_contains ''saql'' ''my_run'' \<and>
    \<not> str_contains ''fdqn'' ''my_run'' \<and> \<not> str_contains ''iql'' ''my_run'' \<and>
    \<not> str_contains ''sdqn'' ''my_run'') \<and>
   translate_run_name ''my_run'' = ''my_run'' \<and>
   (\<not> str_contains ''adqn'' ''x_fdqn_a_1'' \<and> \<not> str_contains ''ddqn'' ''x_fdqn_a_1'' \<and>
    str_contains ''fdqn_a'' ''x_fdqn_a_1'') \<and>
   translate_run_name ''x_fdqn_a_1'' = ''SAQL'' \<and> str_contains ''fdqn'' ''x_fdqn_a_1''"
proof -
  have h1: "\<not> str_contains ''adqn'' ''my_run'' \<and> \<not> str_contains ''ddqn'' ''my_run'' \<and>
    \<not> str_contains ''fdqn_a'' ''my_run'' \<and> \<not> str_contains ''saql'' ''my_run'' \<and>
    \<not> str_contains ''fdqn'' ''my_run'' \<and> \<not> str_contains ''iql'' ''my_run'' \<and>
    \<not> str_contains ''sdqn'' ''my_run''" by simp
  have h2: "\<not> str_contains ''adqn'' ''x_fdqn_a_1'' \<and> \<not> str_contains ''ddqn'' ''x_fdqn_a_1'' \<and>
    str_contains ''fdqn_a'' ''x_fdqn_a_1''" by simp
  from translate_run_name_examples [of "''my_run''" "''x_fdqn_a_1''"] h1 h2
  show ?thesis by blast
qed

lemma translate_run_name_range:
  "translate_run_name s = ''DDQN'' \<or> translate_run_name s = ''SAQL'' \<or>
   translate_run_name s = ''IQL'' \<or> translate_run_name s = ''simSDQN'' \<or>
   translate_run_name s = s"
  by (simp add: translate_run_name_def)

lemma translate_run_name_labels:
  "translate_run_name ''DDQN'' = ''DDQN''" "translate_run_name ''SAQL'' = ''SAQL''"
  "translate_run_name ''IQL'' = ''IQL''" "translate_run_name ''simSDQN'' = ''simSDQN''"
  by (simp_all add: translate_run_name_def)

text \<open>
  Claim C8. Canonicalization is idempotent: applying it to its own result changes
  nothing, for every input; in particular \<open>DDQN\<close> is mapped to itself.
\<close>

theorem translate_run_name_idempotent:
  "translate_run_name (translate_run_name s) = translate_run_name s \<and>
   translate_run_name ''DDQN'' = ''DDQN''"
  using translate_run_name_range [of s] by (auto simp: translate_run_name_labels)

subsection \<open>Configuration-table filtering\<close>

lemma select_rows_best:
  "select_rows (filter (\<lambda>r. str_contains ''best'' (row_config_id r)) rows)
     dimn benchmark reverse_agents importance_base reward_shape exp_reward n_act =
   filter (best_row_selected dimn benchmark reverse_agents importance_base reward_shape exp_reward
             n_act) rows"
  unfolding select_rows_def best_row_selected_def Let_def
  by (auto intro!: filter_cong)

text \<open>
  Claim C7, as the code has it. On a table whose \<open>config_id\<close> column holds strings,
  the filter called with \<^verbatim>\<open>config_id = 'best'\<close> returns exactly the rows (in table
  order) whose identifier contains \<open>best\<close> and that match the remaining applicable
  selectors; so every returned row contains \<open>best\<close> in its identifier, whatever the
  other selectors are, and when no row matches the result is the empty table. On a table
  whose \<open>config_id\<close> column holds integers the same call raises AttributeError.
\<close>

theorem get_run_configs_best_strings:
  "get_run_configs (StrFrame rows) dimn benchmark (StrId ''best'') reverse_agents importance_base
     reward_shape exp_reward n_act =
   Inr (StrFrame (filter (best_row_selected dimn benchmark reverse_agents importance_base
                            reward_shape exp_reward n_act) rows)) \<and>
   (\<forall>r\<in>set (filter (best_row_selected dimn benchmark reverse_agents importance_base
                       reward_shape exp_reward n_act) rows).
      str_contains ''best'' (row_config_id r)) \<and>
   ((\<forall>r\<in>set rows. \<not> best_row_selected dimn benchmark reverse_agents importance_base
                        reward_shape exp_reward n_act r) \<longrightarrow>
      get_run_configs (StrFrame rows) dimn benchmark (StrId ''best'') reverse_agents
        importance_base reward_shape exp_reward n_act = Inr (StrFrame [])) \<and>
   get_run_configs (IntFrame int_rows) dimn benchmark (StrId ''best'') reverse_agents
     importance_base reward_shape exp_reward n_act = Inl AttributeError"
proof -
  have eq: "get_run_configs (StrFrame rows) dimn benchmark (StrId ''best'') reverse_agents
      importance_base reward_shape exp_reward n_act =
    Inr (StrFrame (filter (best_row_selected dimn benchmark reverse_agents importance_base
      reward_shape exp_reward n_act) rows))"
    by (simp add: get_run_configs_def select_rows_best)
  have err: "get_run_configs (IntFrame int_rows) dimn benchmark (StrId ''best'') reverse_agents
      importance_base reward_shape exp_reward n_act = Inl AttributeError"
    by (simp add: get_run_configs_def)
  show ?thesis unfolding eq err
    by (auto simp: best_row_selected_def filter_empty_conv)
qed

theorem get_run_configs_best_strings_witness:
  "get_run_configs (StrFrame demo_rows) 2 ''candid_sigmoid'' (StrId ''best'') False (1 / 2) ''exp''
     (46 / 10) (Some 3) = Inr (StrFrame [demo_rows ! 0]) \<and>
   list_all (\<lambda>r. str_contains ''best'' (row_config_id r)) [demo_rows ! 0] \<and>
   list_all (\<lambda>r. \<not> best_row_selected 7 ''candid_sigmoid'' False (1 / 2) ''exp'' (46 / 10) (Some 3) r)
     demo_rows \<and>
   get_run_configs (StrFrame demo_rows) 7 ''candid_sigmoid'' (StrId ''best'') False (1 / 2) ''exp''
     (46 / 10) (Some 3) = Inr (StrFrame []) \<and>
   get_run_configs (IntFrame demo_int_rows) 2 ''candid_sigmoid'' (StrId ''best'') False (1 / 2)
     ''exp'' (46 / 10) (Some 3) = Inl AttributeError"
proof -
  note t2 = get_run_configs_best_strings [of demo_rows 2 "''candid_sigmoid''" False "1 / 2"
      "''exp''" "46 / 10" "Some 3" demo_int_rows]
  note t7 = get_run_configs_best_strings [of demo_rows 7 "''candid_sigmoid''" False "1 / 2"
      "''exp''" "46 / 10" "Some 3" demo_int_rows]
  have b: "filter (best_row_selected 2 ''candid_sigmoid'' False (1 / 2) ''exp'' (46 / 10) (Some 3))
      demo_rows = [demo_rows ! 0]"
    by (simp add: best_row_selected_def demo_rows_def)
  have a: "get_run_configs (StrFrame demo_rows) 2 ''candid_sigmoid'' (StrId ''best'') False (1 / 2)
      ''exp'' (46 / 10) (Some 3) = Inr (StrFrame [demo_rows ! 0])"
    using t2 unfolding b by (rule conjunct1)
  have c: "\<forall>r\<in>set [demo_rows ! 0]. str_contains ''best'' (row_config_id r)"
    using t2 unfolding b by blast
  have c': "list_all (\<lambda>r. str_contains ''best'' (row_config_id r)) [demo_rows ! 0]"
    using c by (simp only: list_all_iff)
  have h: "\<forall>r\<in>set demo_rows. \<not> best_row_selected 7 ''candid_sigmoid'' False (1 / 2) ''exp''
      (46 / 10) (Some 3) r"
    by (simp add: best_row_selected_def demo_rows_def)
  have h': "list_all (\<lambda>r. \<not> best_row_selected 7 ''candid_sigmoid'' False (1 / 2) ''exp'' (46 / 10)
      (Some 3) r) demo_rows"
    using h by (simp only: list_all_iff)
  have d: "get_run_configs (StrFrame demo_rows) 7 ''candid_sigmoid'' (StrId ''best'') False (1 / 2)
      ''exp'' (46 / 10) (Some 3) = Inr (StrFrame [])"
    using t7 h by blast
  have e: "get_run_configs (IntFrame demo_int_rows) 2 ''candid_sigmoid'' (StrId ''best'') False
      (1 / 2) ''exp'' (46 / 10) (Some 3) = Inl AttributeError"
    using t2 by blast
  from a c' h' d e show ?thesis by (intro conjI)
qed

text \<open>
  Claim C7 as stated fails on a table with an integer \<open>config_id\<close> column: no row
  matches \<open>best\<close>, and the call raises AttributeError instead of returning the empty
  table.
\<close>

theorem get_run_configs_int_column_counterexample:
  "get_run_configs (IntFrame demo_int_rows) 2 ''candid_sigmoid'' (StrId ''best'') False (1 / 2)
     ''exp'' (46 / 10) (Some 3) = Inl AttributeError \<and>
   get_run_configs (IntFrame demo_int_rows) 2 ''candid_sigmoid'' (StrId ''best'') False (1 / 2)
     ''exp'' (46 / 10) (Some 3) \<noteq> Inr (IntFrame [])"
  by (simp add: get_run_configs_def)

text \<open>With any other \<open>config_id\<close> the filter returns a table, on both kinds of column.\<close>

lemma get_run_configs_equality_total:
  "config_id \<noteq> StrId ''best'' \<Longrightarrow>
   \<exists>df. get_run_configs df_config dimn benchmark config_id reverse_agents importance_base
          reward_shape exp_reward n_act = Inr df"
  by (cases df_config) (simp_all add: get_run_configs_def)

subsection \<open>Optimal episode reward\<close>

lemma find_nearest_member:
  assumes "sorted A" and "v \<in> set A"
  shows "find_nearest A v = Inr v"
proof -
  have ne: "A \<noteq> []" using assms(2) by auto
  from find_nearest_index [OF ne assms(1), of v] obtain k where k: "k < length A"
    and r: "find_nearest A v = Inr (A ! k)"
    and best: "\<And>j. j < length A \<Longrightarrow> fl64 \<bar>A ! k - v\<bar> \<le> fl64 \<bar>A ! j - v\<bar>"
    by blast
  from assms(2) obtain j where "j < length A" "A ! j = v" by (auto simp: in_set_conv_nth)
  with best [of j] have le: "fl64 \<bar>A ! k - v\<bar> \<le> 0" by (simp add: fl64_zero)
  have "A ! k = v"
  proof (rule ccontr)
    assume "A ! k \<noteq> v"
    then have "0 < \<bar>A ! k - v\<bar>" by simp
    then have "0 < fl64 \<bar>A ! k - v\<bar>" by (rule fl64_pos)
    with le show False by simp
  qed
  with r show ?thesis by simp
qed

lemma sum_loop_ones:
  "(\<And>t. t \<in> set ts \<Longrightarrow> step t = Inr 1) \<Longrightarrow> sum_loop step ts acc = Inr (acc + real (length ts))"
  by (induction ts arbitrary: acc) (simp_all add: algebra_simps)

lemma demo_env_simps:
  "env_class (demo_env cls sl sh) = cls" "n_steps (demo_env cls sl sh) = 2"
  "n_actions (demo_env cls sl sh) = length sl" "slopes (demo_env cls sl sh) = sl"
  "shifts (demo_env cls sl sh) = sh" "sig (demo_env cls sl sh) = dacbench_sig"
  "get_target (demo_env cls sl sh) = (\<lambda>t. 1 / 2)"
  by (simp_all add: demo_env_def)

lemma dacbench_sig_flat: "dacbench_sig t 0 shift = 1 / 2"
  by (simp add: dacbench_sig_def)

lemma find_nearest_half: "find_nearest [0, 1] (1 / 2) = Inr 1"
  by (simp add: find_nearest_def searchsorted_def bsearch.simps)

lemma exp_decay_small: "exp (- (23 / 10)) < (1 / 2 :: real)"
proof -
  have "1 + 23 / 10 \<le> exp (23 / 10 :: real)" by (rule exp_ge_add_one_self)
  then have "2 < exp (23 / 10 :: real)" by simp
  then have "inverse (exp (23 / 10 :: real)) < inverse 2"
    by (simp add: field_simps)
  then show ?thesis by (simp add: exp_minus)
qed

text \<open>
  Claim C4. In the single-target variant with a reward shape other than
  \<open>exponential\<close>, on a sorted action grid: if the truth value of every time step
  below \<open>n_steps\<close> is an element of the grid, the optimal episode reward is exactly
  \<open>n_steps\<close>. (The truth signal is read from \<open>shifts[0]\<close> and \<open>slopes[0]\<close>, which
  therefore exist.)
\<close>

theorem perfect_score:
  assumes cls: "env_class e = DiffImportanceFineTuneSigmoidEnv"
    and shifts: "shifts e \<noteq> []" and slopes: "slopes e \<noteq> []"
    and grid: "sorted possible_actions"
    and shape: "reward_shape \<noteq> Some ''exponential''"
    and hit: "\<forall>t<n_steps e. sig e t (slopes e ! 0) (shifts e ! 0) \<in> set possible_actions"
  shows "compute_optimal_episode_reward e possible_actions reward_shape c = Inr (real (n_steps e))"
proof -
  have step: "step_importance e possible_actions reward_shape c (slopes e ! 0) (shifts e ! 0) t = Inr 1"
    if "t \<in> set [0..<n_steps e]" for t
  proof -
    have "sig e t (slopes e ! 0) (shifts e ! 0) \<in> set possible_actions" using hit that by simp
    then have "find_nearest possible_actions (sig e t (slopes e ! 0) (shifts e ! 0))
        = Inr (sig e t (slopes e ! 0) (shifts e ! 0))"
      using grid by (simp add: find_nearest_member)
    then show ?thesis using shape by (simp add: step_importance_def reward_importance_def)
  qed
  have "sum_loop (step_importance e possible_actions reward_shape c (slopes e ! 0) (shifts e ! 0))
      [0..<n_steps e] 0 = Inr (0 + real (length [0..<n_steps e]))"
    using step by (rule sum_loop_ones)
  then show ?thesis using cls shifts slopes
    by (simp add: compute_optimal_episode_reward_def py_nth_def)
qed

theorem perfect_score_witness:
  "env_class (demo_env DiffImportanceFineTuneSigmoidEnv [0] [0]) = DiffImportanceFineTuneSigmoidEnv \<and>
   shifts (demo_env DiffImportanceFineTuneSigmoidEnv [0] [0]) \<noteq> [] \<and>
   slopes (demo_env DiffImportanceFineTuneSigmoidEnv [0] [0]) \<noteq> [] \<and>
   sorted [0, 1 / 2, 1 :: real] \<and>
   (None :: string option) \<noteq> Some ''exponential'' \<and>
   n_steps (demo_env DiffImportanceFineTuneSigmoidEnv [0] [0]) = 2 \<and>
   sig (demo_env DiffImportanceFineTuneSigmoidEnv [0] [0]) 0
     (slopes (demo_env DiffImportanceFineTuneSigmoidEnv [0] [0]) ! 0)
     (shifts (demo_env DiffImportanceFineTuneSigmoidEnv [0] [0]) ! 0) \<in> set [0, 1 / 2, 1] \<and>
   sig (demo_env DiffImportanceFineTuneSigmoidEnv [0] [0]) 1
     (slopes (demo_env DiffImportanceFineTuneSigmoidEnv [0] [0]) ! 0)
     (shifts (demo_env DiffImportanceFineTuneSigmoidEnv [0] [0]) ! 0) \<in> set [0, 1 / 2, 1] \<and>
   compute_optimal_episode_reward (demo_env DiffImportanceFineTuneSigmoidEnv [0] [0]) [0, 1 / 2, 1]
     None None = Inr 2"
proof -
  let ?e = "demo_env DiffImportanceFineTuneSigmoidEnv [0] [0]"
  have h1: "env_class ?e = DiffImportanceFineTuneSigmoidEnv" by (simp add: demo_env_simps)
  have h2: "shifts ?e \<noteq> []" by (simp add: demo_env_simps)
  have h3: "slopes ?e \<noteq> []" by (simp add: demo_env_simps)
  have h4: "sorted [0, 1 / 2, 1 :: real]" by simp
  have h5: "(None :: string option) \<noteq> Some ''exponential''" by simp
  have n: "n_steps ?e = 2" by (simp add: demo_env_simps)
  have s0: "sig ?e 0 (slopes ?e ! 0) (shifts ?e ! 0) \<in> set [0, 1 / 2, 1]"
    by (simp add: demo_env_simps dacbench_sig_flat)
  have s1: "sig ?e 1 (slopes ?e ! 0) (shifts ?e ! 0) \<in> set [0, 1 / 2, 1]"
    by (simp add: demo_env_simps dacbench_sig_flat)
  have h6: "\<forall>t<n_steps ?e. sig ?e t (slopes ?e ! 0) (shifts ?e ! 0) \<in> set [0, 1 / 2, 1]"
  proof (intro allI impI)
    fix t assume "t < n_steps ?e"
    then have "t = 0 \<or> t = 1" using n by auto
    then show "sig ?e t (slopes ?e ! 0) (shifts ?e ! 0) \<in> set [0, 1 / 2, 1]"
      using s0 s1 by blast
  qed
  have "compute_optimal_episode_reward ?e [0, 1 / 2, 1] None None = Inr (real (n_steps ?e))"
    using h1 h2 h3 h4 h5 h6 by (rule perfect_score)
  then have r: "compute_optimal_episode_reward ?e [0, 1 / 2, 1] None None = Inr 2"
    by (simp add: demo_env_simps)
  from h1 h2 h3 h4 h5 n s0 s1 r show ?thesis by (intro conjI)
qed

text \<open>
  Claim C9. In the single-target variant the reward depends on the slopes and shifts
  only through their entries at index 0: two environments of that class with the same
  number of steps, the same \<open>_sig\<close> and the same first slope and first shift have the
  same optimal episode reward (or raise the same exception), for every action grid,
  reward shape and decay constant, whatever their other slopes and shifts are.
\<close>

theorem index0_only:
  assumes "env_class e1 = DiffImportanceFineTuneSigmoidEnv"
    and "env_class e2 = DiffImportanceFineTuneSigmoidEnv"
    and "n_steps e1 = n_steps e2" and "sig e1 = sig e2"
    and "take 1 (slopes e1) = take 1 (slopes e2)"
    and "take 1 (shifts e1) = take 1 (shifts e2)"
  shows "compute_optimal_episode_reward e1 possible_actions reward_shape c =
         compute_optimal_episode_reward e2 possible_actions reward_shape c"
proof -
  have nth0: "py_nth xs 0 = py_nth ys 0" if "take 1 xs = take 1 ys" for xs ys :: "real list"
    using that by (cases xs; cases ys) (simp_all add: py_nth_def)
  have step: "step_importance e1 possible_actions reward_shape c a b =
      step_importance e2 possible_actions reward_shape c a b" for a b
    using assms(4) by (simp add: step_importance_def fun_eq_iff)
  show ?thesis
    using assms(1,2,3) nth0 [OF assms(5)] nth0 [OF assms(6)]
    by (simp add: compute_optimal_episode_reward_def step split: sum.splits)
qed

theorem index0_only_witness:
  "env_class (demo_env DiffImportanceFineTuneSigmoidEnv [0, 3] [0, 5]) = DiffImportanceFineTuneSigmoidEnv \<and>
   env_class (demo_env DiffImportanceFineTuneSigmoidEnv [0, -1, 7] [0, 2, 9]) = DiffImportanceFineTuneSigmoidEnv \<and>
   n_steps (demo_env DiffImportanceFineTuneSigmoidEnv [0, 3] [0, 5]) =
     n_steps (demo_env DiffImportanceFineTuneSigmoidEnv [0, -1, 7] [0, 2, 9]) \<and>
   sig (demo_env DiffImportanceFineTuneSigmoidEnv [0, 3] [0, 5]) =
     sig (demo_env DiffImportanceFineTuneSigmoidEnv [0, -1, 7] [0, 2, 9]) \<and>
   take 1 (slopes (demo_env DiffImportanceFineTuneSigmoidEnv [0, 3] [0, 5])) =
     take 1 (slopes (demo_env DiffImportanceFineTuneSigmoidEnv [0, -1, 7] [0, 2, 9])) \<and>
   take 1 (shifts (demo_env DiffImportanceFineTuneSigmoidEnv [0, 3] [0, 5])) =
     take 1 (shifts (demo_env DiffImportanceFineTuneSigmoidEnv [0, -1, 7] [0, 2, 9])) \<and>
   compute_optimal_episode_reward (demo_env DiffImportanceFineTuneSigmoidEnv [0, 3] [0, 5])
     [0, 1] (Some ''exponential'') (Some 1) =
   compute_optimal_episode_reward (demo_env DiffImportanceFineTuneSigmoidEnv [0, -1, 7] [0, 2, 9])
     [0, 1] (Some ''exponential'') (Some 1)"
proof -
  let ?e1 = "demo_env DiffImportanceFineTuneSigmoidEnv [0, 3] [0, 5]"
  let ?e2 = "demo_env DiffImportanceFineTuneSigmoidEnv [0, -1, 7] [0, 2, 9]"
  have h1: "env_class ?e1 = DiffImportanceFineTuneSigmoidEnv" by (simp add: demo_env_simps)
  have h2: "env_class ?e2 = DiffImportanceFineTuneSigmoidEnv" by (simp add: demo_env_simps)
  have h3: "n_steps ?e1 = n_steps ?e2" by (simp add: demo_env_simps)
  have h4: "sig ?e1 = sig ?e2" by (simp add: demo_env_simps)
  have h5: "take 1 (slopes ?e1) = take 1 (slopes ?e2)" by (simp add: demo_env_simps)
  have h6: "take 1 (shifts ?e1) = take 1 (shifts ?e2)" by (simp add: demo_env_simps)
  have r: "compute_optimal_episode_reward ?e1 [0, 1] (Some ''exponential'') (Some 1) =
      compute_optimal_episode_reward ?e2 [0, 1] (Some ''exponential'') (Some 1)"
    using h1 h2 h3 h4 h5 h6 by (rule index0_only)
  from h1 h2 h3 h4 h5 h6 r show ?thesis by (intro conjI)
qed

lemma reward_laws_agree_off_exp:
  "reward_shape \<noteq> Some ''exp'' \<Longrightarrow>
   reward_piecewise reward_shape c truth best = reward_importance reward_shape c truth best"
  by (simp add: reward_piecewise_def reward_importance_def)

text \<open>
  Claim C2, evaluated on the code. The two per-step laws agree for every reward shape
  other than \<open>exp\<close> (lemma \<open>reward_laws_agree_off_exp\<close>), and differ there. With the reward shape \<open>exp\<close> and the decay constant
  \<open>4.6\<close>, for the truth \<open>1 / 2\<close> and the best prediction \<open>1\<close>, the single-target
  branch applies the linear law and gives \<open>1 / 2\<close>, while the piecewise-target branch
  applies the exponential law and gives \<open>exp (-2.3)\<close>: the two branches do not apply
  the same function of (truth, best prediction, reward shape, c). Over an episode of two
  steps with that truth and the grid \<open>[0, 1]\<close> the rewards are \<open>1\<close> and
  \<open>2 exp (-2.3) < 1\<close>.
\<close>

theorem exp_alias_diverges:
  "reward_importance (Some ''exp'') (Some (46 / 10)) (1 / 2) 1 = Inr (1 / 2) \<and>
   reward_piecewise (Some ''exp'') (Some (46 / 10)) (1 / 2) 1 = Inr (exp (- (23 / 10))) \<and>
   compute_optimal_episode_reward (demo_env DiffImportanceFineTuneSigmoidEnv [0] [0]) [0, 1]
     (Some ''exp'') (Some (46 / 10)) = Inr 1 \<and>
   compute_optimal_episode_reward (demo_env PiecewiseLinearEnv [0] [0]) [0, 1]
     (Some ''exp'') (Some (46 / 10)) = Inr (2 * exp (- (23 / 10))) \<and>
   2 * exp (- (23 / 10)) < (1 :: real)"
proof (intro conjI)
  show "reward_importance (Some ''exp'') (Some (46 / 10)) (1 / 2) 1 = Inr (1 / 2)"
    by (simp add: reward_importance_def)
  show rp: "reward_piecewise (Some ''exp'') (Some (46 / 10)) (1 / 2) 1 = Inr (exp (- (23 / 10)))"
    by (simp add: reward_piecewise_def)
  show "compute_optimal_episode_reward (demo_env DiffImportanceFineTuneSigmoidEnv [0] [0]) [0, 1]
     (Some ''exp'') (Some (46 / 10)) = Inr 1"
    by (simp add: compute_optimal_episode_reward_def demo_env_simps py_nth_def upt_rec
        step_importance_def dacbench_sig_flat find_nearest_half reward_importance_def)
  show "compute_optimal_episode_reward (demo_env PiecewiseLinearEnv [0] [0]) [0, 1]
     (Some ''exp'') (Some (46 / 10)) = Inr (2 * exp (- (23 / 10)))"
    by (simp add: compute_optimal_episode_reward_def demo_env_simps upt_rec
        step_piecewise_def find_nearest_half reward_piecewise_def)
  show "2 * exp (- (23 / 10)) < (1 :: real)" using exp_decay_small by simp
qed

subsection \<open>Action grids\<close>

lemma collect_all_Inr: "collect (map (\<lambda>x. Inr (f x)) xs) = Inr (map f xs)"
  by (induction xs) simp_all

lemma collect_map_Inr:
  "(\<And>x. x \<in> set xs \<Longrightarrow> f x = Inr (g x)) \<Longrightarrow> collect (map f xs) = Inr (map g xs)"
  by (induction xs) simp_all

lemma uniform_actions_eq:
  "uniform_actions n_acts =
     (if n_acts = 1 then Inl ZeroDivisionError
      else Inr (map (\<lambda>i. 1 / real_of_int (n_acts - 1) * real i) (py_range n_acts)))"
proof (cases "n_acts = 1")
  case True
  then show ?thesis by (simp add: uniform_actions_def py_range_def py_div_def)
next
  case False
  then have "real_of_int (n_acts - 1) \<noteq> 0" by simp
  then have "uniform_actions n_acts =
      collect (map (\<lambda>i. Inr (1 / real_of_int (n_acts - 1) * real i)) (py_range n_acts))"
    unfolding uniform_actions_def py_div_def by simp
  then show ?thesis using False by (simp only: collect_all_Inr if_False)
qed

lemma centered_actions_eq:
  "centered_actions b n_acts i =
     (if n_acts = 1 then Inl ZeroDivisionError
      else Inr (map (\<lambda>j. b ^ i * (real j / real_of_int (n_acts - 1) - 1 / 2)) (py_range n_acts)))"
proof (cases "n_acts = 1")
  case True
  then show ?thesis by (simp add: centered_actions_def py_range_def py_div_def)
next
  case False
  then have "real_of_int (n_acts - 1) \<noteq> 0" by simp
  then have "centered_actions b n_acts i =
      collect (map (\<lambda>j. Inr (b ^ i * (real j / real_of_int (n_acts - 1) - 1 / 2))) (py_range n_acts))"
    unfolding centered_actions_def py_div_def by simp
  then show ?thesis using False by (simp only: collect_all_Inr if_False)
qed

lemma actions_per_dim_eq:
  "actions_per_dim max_dim b n_acts =
     (if n_acts = 1 then Inl ZeroDivisionError
      else Inr (map (\<lambda>i. 1 / real_of_int (n_acts - 1) * real i) (py_range n_acts) #
                map (\<lambda>i. map (\<lambda>j. b ^ i * (real j / real_of_int (n_acts - 1) - 1 / 2)) (py_range n_acts))
                  (py_range_from1 max_dim)))"
proof (cases "n_acts = 1")
  case True
  then show ?thesis by (simp add: actions_per_dim_def uniform_actions_eq)
next
  case False
  have "collect (map (centered_actions b n_acts) (py_range_from1 max_dim)) =
      Inr (map (\<lambda>i. map (\<lambda>j. b ^ i * (real j / real_of_int (n_acts - 1) - 1 / 2)) (py_range n_acts))
        (py_range_from1 max_dim))"
    using False by (intro collect_map_Inr) (simp add: centered_actions_eq)
  then show ?thesis using False
    by (simp add: actions_per_dim_def uniform_actions_eq)
qed

lemma remdups_adj_strict: "sorted xs \<Longrightarrow> sorted_wrt (<) (remdups_adj xs)"
  by (induction xs rule: remdups_adj.induct) (auto simp: less_le)

lemma np_unique_strict: "sorted_wrt (<) (sort (np_unique xs))"
proof -
  have s: "sorted_wrt (<) (remdups_adj (sort xs))" by (simp add: remdups_adj_strict)
  then have "sort (remdups_adj (sort xs)) = remdups_adj (sort xs)"
    by (simp add: sorted_sort_id strict_sorted_imp_sorted)
  with s show ?thesis by (simp add: np_unique_def)
qed

lemma grid_cases:
  "get_actions_importance_sigmoid max_dim b n_acts = Inl ZeroDivisionError \<and> n_acts = 1 \<or>
   (\<exists>g. get_actions_importance_sigmoid max_dim b n_acts = Inr g \<and> sorted_wrt (<) g \<and> n_acts \<noteq> 1)"
  by (cases "n_acts = 1")
     (simp_all add: get_actions_importance_sigmoid_def actions_per_dim_eq Let_def np_unique_strict)

lemma rows_2_3: "actions_per_dim 2 (1 / 2) 3 = Inr [[0, 1 / 2, 1], [- (1 / 4), 0, 1 / 4]]"
  by (simp add: actions_per_dim_eq py_range_def py_range_from1_def upt_rec)

lemma idx_2_3:
  "product_lists (map (\<lambda>vec. [0..<length vec]) [[0, 1 / 2, 1], [- (1 / 4), 0, 1 / 4 :: real]])
   = [[0, 0], [0, 1], [0, 2], [1, 0], [1, 1], [1, 2], [2, 0], [2, 1], [2, 2]]"
  by (simp add: upt_rec)

lemma sum_at_pair: "sum_at a [i, j] = a ! 0 ! i + a ! 1 ! j"
  by (simp add: sum_at_def enumerate_eq_zip upt_rec)

lemma sums_2_3:
  "map (sum_at [[0, 1 / 2, 1], [- (1 / 4), 0, 1 / 4]])
     (product_lists (map (\<lambda>vec. [0..<length vec]) [[0, 1 / 2, 1], [- (1 / 4), 0, 1 / 4 :: real]]))
   = [- (1 / 4), 0, 1 / 4, 1 / 4, 1 / 2, 3 / 4, 3 / 4, 1, 5 / 4]"
  unfolding idx_2_3 by (simp add: sum_at_pair)

lemma unique_2_3:
  "sort (np_unique [- (1 / 4), 0, 1 / 4, 1 / 4, 1 / 2, 3 / 4, 3 / 4, 1, 5 / 4 :: real])
   = [- (1 / 4), 0, 1 / 4, 1 / 2, 3 / 4, 1, 5 / 4]"
  by (simp add: np_unique_def)

lemma grid_2_3:
  "get_actions_importance_sigmoid 2 (1 / 2) 3 = Inr [- (1 / 4), 0, 1 / 4, 1 / 2, 3 / 4, 1, 5 / 4]"
  unfolding get_actions_importance_sigmoid_def rows_2_3 Let_def sum.case sums_2_3 unique_2_3 ..

lemma grid_empty: "n_acts \<le> 0 \<Longrightarrow> get_actions_importance_sigmoid max_dim b n_acts = Inr []"
  by (simp add: get_actions_importance_sigmoid_def actions_per_dim_eq py_range_def np_unique_def)

lemma uniform_rows_3: "uniform_actions 3 = Inr [0, 1 / 2, 1]"
  by (simp add: uniform_actions_eq py_range_def upt_rec)

lemma centered_rows_3: "centered_actions (1 / 2) 3 1 = Inr [- (1 / 4), 0, 1 / 4]"
  by (simp add: centered_actions_eq py_range_def upt_rec)

text \<open>
  Claim C5. For \<open>max_dim = 2\<close>, \<open>importance_base = 0.5\<close>, \<open>n_acts = 3\<close> the candidates
  of dimension 0 are \<open>[0, 0.5, 1]\<close>, those of dimension 1 are \<open>[-0.25, 0, 0.25]\<close>, and
  the result is \<open>[-0.25, 0, 0.25, 0.5, 0.75, 1, 1.25]\<close>: the set of the nine sums of
  the Cartesian product, without duplicates, in ascending order, of at most 9 (here 7)
  elements. In general, for \<open>max_dim \<ge> 1\<close> and \<open>n_acts \<ge> 2\<close> and every base the
  function returns a strictly increasing sequence.
\<close>

theorem action_grid_strictly_increasing:
  "uniform_actions 3 = Inr [0, 1 / 2, 1] \<and>
   centered_actions (1 / 2) 3 1 = Inr [- (1 / 4), 0, 1 / 4] \<and>
   actions_per_dim 2 (1 / 2) 3 = Inr [[0, 1 / 2, 1], [- (1 / 4), 0, 1 / 4]] \<and>
   get_actions_importance_sigmoid 2 (1 / 2) 3 = Inr [- (1 / 4), 0, 1 / 4, 1 / 2, 3 / 4, 1, 5 / 4] \<and>
   set [- (1 / 4), 0, 1 / 4, 1 / 2, 3 / 4, 1, 5 / 4 :: real] =
     set (map (\<lambda>(x, y). x + y) (List.product [0, 1 / 2, 1] [- (1 / 4), 0, 1 / 4])) \<and>
   length [- (1 / 4), 0, 1 / 4, 1 / 2, 3 / 4, 1, 5 / 4 :: real] \<le> 9 \<and>
   sorted_wrt (<) [- (1 / 4), 0, 1 / 4, 1 / 2, 3 / 4, 1, 5 / 4 :: real] \<and>
   (1 \<le> max_dim \<and> 2 \<le> n_acts \<longrightarrow>
      (\<exists>g. get_actions_importance_sigmoid max_dim b n_acts = Inr g \<and> sorted_wrt (<) g))"
proof (intro conjI)
  show "uniform_actions 3 = Inr [0, 1 / 2, 1]" by (rule uniform_rows_3)
  show "centered_actions (1 / 2) 3 1 = Inr [- (1 / 4), 0, 1 / 4]" by (rule centered_rows_3)
  show "actions_per_dim 2 (1 / 2) 3 = Inr [[0, 1 / 2, 1], [- (1 / 4), 0, 1 / 4]]"
    by (rule rows_2_3)
  show "get_actions_importance_sigmoid 2 (1 / 2) 3 = Inr [- (1 / 4), 0, 1 / 4, 1 / 2, 3 / 4, 1, 5 / 4]"
    by (rule grid_2_3)
  show "set [- (1 / 4), 0, 1 / 4, 1 / 2, 3 / 4, 1, 5 / 4 :: real] =
     set (map (\<lambda>(x, y). x + y) (List.product [0, 1 / 2, 1] [- (1 / 4), 0, 1 / 4]))"
    by (simp add: insert_commute)
  show "length [- (1 / 4), 0, 1 / 4, 1 / 2, 3 / 4, 1, 5 / 4 :: real] \<le> 9" by simp
  show "sorted_wrt (<) [- (1 / 4), 0, 1 / 4, 1 / 2, 3 / 4, 1, 5 / 4 :: real]" by simp
  show "1 \<le> max_dim \<and> 2 \<le> n_acts \<longrightarrow>
      (\<exists>g. get_actions_importance_sigmoid max_dim b n_acts = Inr g \<and> sorted_wrt (<) g)"
    using grid_cases [of max_dim b n_acts] by auto
qed

theorem action_grid_strictly_increasing_witness:
  "(1 :: int) \<le> 3 \<and> (2 :: int) \<le> 2 \<and>
   (\<exists>g. get_actions_importance_sigmoid 3 (1 / 2) 2 = Inr g \<and> sorted_wrt (<) g)"
proof -
  have h: "(1 :: int) \<le> 3 \<and> (2 :: int) \<le> 2" by simp
  have "1 \<le> (3 :: int) \<and> 2 \<le> (2 :: int) \<longrightarrow>
      (\<exists>g. get_actions_importance_sigmoid 3 (1 / 2) 2 = Inr g \<and> sorted_wrt (<) g)"
    using action_grid_strictly_increasing [of 3 2 "1 / 2"] by blast
  with h show ?thesis by blast
qed

text \<open>
  Claim C10, as the code has it. The grid generation raises ZeroDivisionError exactly
  when \<open>n_acts = 1\<close>, whatever \<open>max_dim\<close> and the base are, and so does the uniformly
  spaced grid; the best-possible-average-reward routine then raises it too, in every
  branch and whatever \<^verbatim>\<open>np.mean\<close> computes. For \<open>n_acts \<ge> 2\<close> both grids are returned. For \<open>n_acts \<le> 0\<close> the ranges are
  empty, no candidate is computed, nothing is divided, and both grids are empty.
\<close>

theorem grid_zero_division:
  "(get_actions_importance_sigmoid max_dim b n_acts = Inl ZeroDivisionError \<longleftrightarrow> n_acts = 1) \<and>
   (uniform_actions n_acts = Inl ZeroDivisionError \<longleftrightarrow> n_acts = 1) \<and>
   (n_acts = 1 \<longrightarrow>
      get_best_possible_avg_reward np_mean insts dimn benchmark reward_shape c b n_acts
        opt_max_dim
        = Inl ZeroDivisionError) \<and>
   (2 \<le> n_acts \<longrightarrow>
      (\<exists>g. get_actions_importance_sigmoid max_dim b n_acts = Inr g) \<and>
      (\<exists>g. uniform_actions n_acts = Inr g)) \<and>
   (n_acts \<le> 0 \<longrightarrow>
      get_actions_importance_sigmoid max_dim b n_acts = Inr [] \<and> uniform_actions n_acts = Inr [])"
proof (intro conjI)
  show "get_actions_importance_sigmoid max_dim b n_acts = Inl ZeroDivisionError \<longleftrightarrow> n_acts = 1"
    using grid_cases [of max_dim b n_acts] by auto
  show "uniform_actions n_acts = Inl ZeroDivisionError \<longleftrightarrow> n_acts = 1"
    by (simp add: uniform_actions_eq)
  show "n_acts = 1 \<longrightarrow>
      get_best_possible_avg_reward np_mean insts dimn benchmark reward_shape c b n_acts
        opt_max_dim
        = Inl ZeroDivisionError"
    using grid_cases [of _ b 1]
    by (auto simp: get_best_possible_avg_reward_def uniform_actions_eq split: option.splits)
  show "2 \<le> n_acts \<longrightarrow>
      (\<exists>g. get_actions_importance_sigmoid max_dim b n_acts = Inr g) \<and>
      (\<exists>g. uniform_actions n_acts = Inr g)"
    using grid_cases [of max_dim b n_acts] by (auto simp: uniform_actions_eq)
  show "n_acts \<le> 0 \<longrightarrow>
      get_actions_importance_sigmoid max_dim b n_acts = Inr [] \<and> uniform_actions n_acts = Inr []"
    by (simp add: grid_empty uniform_actions_eq py_range_def)
qed

theorem grid_zero_division_witness:
  "get_actions_importance_sigmoid 2 (1 / 2) 1 = Inl ZeroDivisionError \<and>
   uniform_actions 1 = Inl ZeroDivisionError \<and>
   get_best_possible_avg_reward np_mean_short [] 2 ''sigmoid'' None None (1 / 2) 1 None = Inl ZeroDivisionError \<and>
   (2 :: int) \<le> 3 \<and>
   (\<exists>g. get_actions_importance_sigmoid 2 (1 / 2) 3 = Inr g) \<and> (\<exists>g. uniform_actions 3 = Inr g) \<and>
   (0 :: int) \<le> 0 \<and>
   get_actions_importance_sigmoid 2 (1 / 2) 0 = Inr [] \<and> uniform_actions 0 = Inr []"
proof -
  note one = grid_zero_division [of 2 "1 / 2" 1 np_mean_short "[]" 2 "''sigmoid''" None None None]
  note three = grid_zero_division [of 2 "1 / 2" 3 np_mean_short "[]" 2 "''sigmoid''" None None None]
  note zero = grid_zero_division [of 2 "1 / 2" 0 np_mean_short "[]" 2 "''sigmoid''" None None None]
  have a: "get_actions_importance_sigmoid 2 (1 / 2) 1 = Inl ZeroDivisionError \<and>
      uniform_actions 1 = Inl ZeroDivisionError \<and>
      get_best_possible_avg_reward np_mean_short [] 2 ''sigmoid'' None None (1 / 2) 1 None = Inl ZeroDivisionError"
    using one by blast
  have h3: "(2 :: int) \<le> 3" by simp
  have b: "(\<exists>g. get_actions_importance_sigmoid 2 (1 / 2) 3 = Inr g) \<and> (\<exists>g. uniform_actions 3 = Inr g)"
    using three h3 by blast
  have h0: "(0 :: int) \<le> 0" by simp
  have c: "get_actions_importance_sigmoid 2 (1 / 2) 0 = Inr [] \<and> uniform_actions 0 = Inr []"
    using zero h0 by blast
  from a h3 b h0 c show ?thesis by blast
qed

text \<open>
  Claim C10 as stated fails at \<open>n_acts = 0\<close>: the grid generation is total also outside \<open>n_acts \<ge> 2\<close>, it returns the empty grid there.
\<close>

theorem grid_total_at_zero_counterexample:
  "get_actions_importance_sigmoid 1 (1 / 2) 0 = Inr [] \<and> uniform_actions 0 = Inr [] \<and>
   \<not> (2 :: int) \<le> 0"
  by (simp add: grid_empty uniform_actions_eq py_range_def)


subsection \<open>Best possible average reward\<close>


























end
